theory Spec2Isabelle
  imports Complex_Main "HOL-Library.Word" "HOL-Library.Sublist" "HOL-Library.Multiset"
begin

section \<open>PostgreSQL configuration store: a shallow embedding of postgres.go\<close>

text \<open>
  The store of \<^verbatim>\<open>configuration/postgres/postgres.go\<close> talks to libraries whose code is
  not part of the repository: the pgx driver, \<^verbatim>\<open>encoding/json\<close>, \<^verbatim>\<open>time\<close> and
  \<^verbatim>\<open>strings.ToLower\<close>. Their calls are parameters of the functions below (what the call
  returned is an input of the model), so every theorem holds for whatever the library
  answers. Go strings are byte sequences, as \<^typ>\<open>string\<close> is.
\<close>

subsection \<open>Errors, panics and results\<close>

text \<open>
  A Go \<^verbatim>\<open>error\<close> value. \<^verbatim>\<open>sql.ErrNoRows\<close> is compared by identity in \<^verbatim>\<open>Get\<close>, so it is
  a constructor of its own; every other error is known by its message.
\<close>

datatype error = ErrNoRows | Error string

fun error_message :: "error \<Rightarrow> string" where
  "error_message ErrNoRows = ''sql: no rows in result set''"
| "error_message (Error msg) = msg"

text \<open>The run-time panics the code can raise.\<close>

datatype panic =
    NilMapAssignment
  | NilPointerDereference
  | InterfaceConversion string
  | CloseOfClosedChannel

datatype 'a outcome = Returns 'a | Panics panic

subsection \<open>Constants\<close>

definition configtablekey :: string where
  "configtablekey = ''table''"

definition connMaxIdleTimeKey :: string where
  "connMaxIdleTimeKey = ''connMaxIdleTime''"

definition connectionStringKey :: string where
  "connectionStringKey = ''connectionString''"

definition ErrorMissingTableName :: string where
  "ErrorMissingTableName = ''missing postgreSQL configuration table name''"

definition ErrorMissingConnectionString :: string where
  "ErrorMissingConnectionString = ''missing postgreSQL connection string''"

definition ErrorAlreadyInitialized :: string where
  "ErrorAlreadyInitialized = ''PostgreSQL configuration store already initialized''"

definition ErrorMissinMaxTimeout :: string where
  "ErrorMissinMaxTimeout = ''missing PostgreSQL maxTimeout setting in configuration''"

definition QueryTableExists :: string where
  "QueryTableExists = ''SELECT EXISTS (SELECT FROM pg_tables where tablename = $1)''"

definition maxIdentifierLength :: nat where
  "maxIdentifierLength = 64"

definition ErrorTooLongFieldLength :: string where
  "ErrorTooLongFieldLength = ''field name is too long''"

subsection \<open>parseMetadata\<close>

text \<open>\<^verbatim>\<open>time.Duration\<close> is an \<^verbatim>\<open>int64\<close> count of nanoseconds.\<close>

type_synonym Duration = "64 word"

text \<open>
  Modelled from the spec: the declaration of the struct \<^verbatim>\<open>metadata\<close> is not in
  postgres.go. The spec's StoreConfig has a connection string, a table name and an idle
  timeout; these are the three fields \<^verbatim>\<open>parseMetadata\<close> and \<^verbatim>\<open>Init\<close> read and write.
  \<^verbatim>\<open>metadata{}\<close> is the struct with every field at its zero value.
\<close>

record metadata =
  maxIdleTime :: Duration
  connectionString :: string
  configTable :: string

definition metadata_zero :: metadata where
  "metadata_zero = \<lparr>maxIdleTime = 0, connectionString = [], configTable = []\<rparr>"

text \<open>
  The guard \<^verbatim>\<open>if val, ok := props[k]; ok && val != ""\<close>: the value when the key is
  present with a non-empty string, nothing otherwise.
\<close>

fun present :: "string option \<Rightarrow> string option" where
  "present None = None"
| "present (Some val) = (if val \<noteq> [] then Some val else None)"

text \<open>\<^verbatim>\<open>utf8string.NewString(tbl).IsASCII()\<close>: no byte of the string is 0x80 or above.\<close>

definition IsASCII :: "string \<Rightarrow> bool" where
  "IsASCII s = list_all (\<lambda>c. (of_char c :: nat) < 128) s"

text \<open>The two formatted messages; \<^verbatim>\<open>%v\<close> prints the table name and the number 64.\<close>

definition invalid_table_name :: "string \<Rightarrow> error" where
  "invalid_table_name tbl =
     Error (''invalid table name : '' @ [CHR 0x27] @ tbl @ [CHR 0x27]
            @ ''. non-ascii characters are not supported'')"

definition too_long_table_name :: "string \<Rightarrow> error" where
  "too_long_table_name tbl =
     Error (ErrorTooLongFieldLength @ '' - tableName : '' @ [CHR 0x27] @ tbl @ [CHR 0x27]
            @ ''. max allowed field length is 64 '')"

text \<open>
  \<^verbatim>\<open>parseMetadata\<close> returns the pair \<^verbatim>\<open>(m, err)\<close>; on an error \<^verbatim>\<open>m\<close> holds the fields
  set so far. \<^verbatim>\<open>time.ParseDuration\<close> is the first parameter.
\<close>

definition parseMetadata ::
  "(string \<Rightarrow> error + Duration) \<Rightarrow> (string \<rightharpoonup> string) \<Rightarrow> metadata \<times> error option" where
  "parseMetadata ParseDuration Properties =
     (let m = metadata_zero in
      case present (Properties connectionStringKey) of
        None \<Rightarrow> (m, Some (Error ErrorMissingConnectionString))
      | Some val \<Rightarrow>
          (let m = m\<lparr>connectionString := val\<rparr> in
           (case present (Properties configtablekey) of
              None \<Rightarrow> (m, Some (Error ErrorMissingTableName))
            | Some tbl \<Rightarrow>
                (if \<not> IsASCII tbl then (m, Some (invalid_table_name tbl))
                 else if length tbl > maxIdentifierLength then (m, Some (too_long_table_name tbl))
                 else
                   (let m = m\<lparr>configTable := tbl\<rparr> in
                    (case present (Properties connMaxIdleTimeKey) of
                       None \<Rightarrow> (m, None)
                     | Some mxTimeout \<Rightarrow>
                         (case ParseDuration mxTimeout of
                            Inr t \<Rightarrow> (m\<lparr>maxIdleTime := t\<rparr>, None)
                          | Inl err \<Rightarrow> (m, Some (Error ErrorMissinMaxTimeout)))))))))"

text \<open>
  A stand-in for \<^verbatim>\<open>time.ParseDuration\<close> where a closed example needs one: it reads
  a run of decimal digits followed by \<^verbatim>\<open>s\<close> as that many seconds and rejects everything
  else (the library accepts more). The general theorems quantify over the parser.
\<close>

fun digits_value :: "string \<Rightarrow> nat \<Rightarrow> nat option" where
  "digits_value [] acc = Some acc"
| "digits_value (c # cs) acc =
     (if (48::nat) \<le> of_char c \<and> (of_char c :: nat) \<le> 57
      then digits_value cs (10 * acc + (of_char c - 48))
      else None)"

definition whole_seconds :: "string \<Rightarrow> error + Duration" where
  "whole_seconds s =
     (if length s \<ge> 2 \<and> last s = CHR ''s'' then
        (case digits_value (butlast s) 0 of
           Some n \<Rightarrow> Inr (of_nat (n * 1000000000))
         | None \<Rightarrow> Inl (Error (''time: invalid duration '' @ s)))
      else Inl (Error (''time: invalid duration '' @ s)))"

subsection \<open>buildQuery\<close>

text \<open>
  Modelled from the spec: \<^verbatim>\<open>configuration.GetRequest\<close> is declared outside postgres.go;
  the spec gives it an ordered sequence of keys and a metadata mapping. A Go map has no
  order of its own and \<^verbatim>\<open>range\<close> visits its entries in an order the language leaves
  open, so the request carries the entries as the list \<^verbatim>\<open>range\<close> yields in this call:
  \<open>ranges_over m entries\<close> says that the list enumerates the mapping \<open>m\<close>.
\<close>

record GetRequest =
  Keys :: "string list"
  Metadata :: "(string \<times> string) list"

definition ranges_over :: "(string \<rightharpoonup> string) \<Rightarrow> (string \<times> string) list \<Rightarrow> bool" where
  "ranges_over m entries \<longleftrightarrow> distinct (map fst entries) \<and> map_of entries = m"

text \<open>\<^verbatim>\<open>strings.Join(elems, sep)\<close>.\<close>

fun Join :: "string list \<Rightarrow> string \<Rightarrow> string" where
  "Join [] sep = []"
| "Join [e] sep = e"
| "Join (e # e' # es) sep = e @ sep @ Join (e' # es) sep"

text \<open>
  The body of \<^verbatim>\<open>for k, v := range req.Metadata\<close>: \<open>s\<close> is the builder's content,
  \<open>i\<close> the number of entries and \<open>j\<close> the counter.
\<close>

fun range_Metadata :: "nat \<Rightarrow> nat \<Rightarrow> (string \<times> string) list \<Rightarrow> string \<Rightarrow> string" where
  "range_Metadata i j [] s = s"
| "range_Metadata i j ((k, v) # rest) s =
     (let temp = k @ ''='' @ [CHR 0x27] @ v @ [CHR 0x27];
          s = s @ temp;
          j = j + 1;
          s = (if j < i then s @ '' AND '' else s)
      in range_Metadata i j rest s)"

definition buildQuery :: "GetRequest \<Rightarrow> string \<Rightarrow> string \<times> error option" where
  "buildQuery req configTable' =
     (let query =
            (if length (Keys req) = 0 then ''SELECT * FROM '' @ configTable'
             else (''SELECT * FROM '' @ configTable' @ '' WHERE KEY IN ('' @ [CHR 0x27])
                  @ Join (Keys req) [CHR 0x27, CHR '','', CHR 0x27]
                  @ ([CHR 0x27] @ '')''));
          query =
            (if length (Metadata req) > 0
             then query @ range_Metadata (length (Metadata req)) 0 (Metadata req) '' AND ''
             else query)
      in (query, None))"

text \<open>
  The query of the spec's words (4.3): all rows of the table; with keys, the rows whose
  key is in the comma-joined list of quoted keys; with filters, one \<^verbatim>\<open>field='value'\<close>
  clause per filter, joined by \<^verbatim>\<open>AND\<close>. \<^verbatim>\<open>buildQuery\<close> is compared with it below.
\<close>

definition spec_quoted :: "string \<Rightarrow> string" where
  "spec_quoted k = [CHR 0x27] @ k @ [CHR 0x27]"

definition spec_equality_clause :: "string \<times> string \<Rightarrow> string" where
  "spec_equality_clause kv = fst kv @ ''='' @ spec_quoted (snd kv)"

definition spec_query :: "string list \<Rightarrow> (string \<times> string) list \<Rightarrow> string \<Rightarrow> string" where
  "spec_query keys filters tbl =
     ''SELECT * FROM '' @ tbl
     @ (if keys = [] then [] else '' WHERE KEY IN ('' @ Join (map spec_quoted keys) '','' @ '')'')
     @ (if filters = [] then []
        else '' AND '' @ Join (map spec_equality_clause filters) '' AND '')"

subsection \<open>The store and the driver\<close>

text \<open>
  The struct \<^verbatim>\<open>ConfigurationStore\<close>. \<open>'pool\<close> stands for \<^verbatim>\<open>*pgxpool.Pool\<close>, and a nil
  pointer is \<open>None\<close>. The registry \<^verbatim>\<open>subscribeStopChanMap\<close> is a \<^verbatim>\<open>sync.Map\<close> from keys to
  stop channels; a channel is known by the number \<^verbatim>\<open>make\<close> gave it. The logger is left
  out of the store: what the subscription code logs is part of its trace below.
\<close>

type_synonym chan = nat

record 'pool ConfigurationStore =
  metadata :: metadata
  client :: "'pool option"
  subscribeStopChanMap :: "string \<rightharpoonup> chan"

text \<open>\<^verbatim>\<open>Connect\<close>: \<^verbatim>\<open>pgxpool.Connect\<close> and \<^verbatim>\<open>pool.Ping\<close> are its first two parameters.\<close>

definition Connect ::
  "(string \<Rightarrow> error + 'pool) \<Rightarrow> ('pool \<Rightarrow> error option) \<Rightarrow> string \<Rightarrow> Duration \<Rightarrow> error + 'pool" where
  "Connect pgxpool_Connect pool_Ping conn maxTimeout =
     (case pgxpool_Connect conn of
        Inl err \<Rightarrow>
          Inl (Error (''postgres configuration store connection error : '' @ error_message err))
      | Inr pool \<Rightarrow>
          (case pool_Ping pool of
             Some pingErr \<Rightarrow>
               Inl (Error (''postgres configuration store ping error : '' @ error_message pingErr))
           | None \<Rightarrow> Inr pool))"

text \<open>
  \<^verbatim>\<open>Init\<close> returns its error and leaves the store changed. Its parameters are
  \<^verbatim>\<open>time.ParseDuration\<close>, the two driver calls of \<^verbatim>\<open>Connect\<close>, the \<^verbatim>\<open>Ping\<close> that \<^verbatim>\<open>Init\<close>
  makes itself (the pool may answer it differently from the one inside \<^verbatim>\<open>Connect\<close>) and
  \<^verbatim>\<open>QueryRow(ctx, query, table).Scan(&exists)\<close>, which gives an error or the boolean it
  stored in \<^verbatim>\<open>exists\<close>.
\<close>

definition Init ::
  "(string \<Rightarrow> error + Duration) \<Rightarrow> (string \<Rightarrow> error + 'pool) \<Rightarrow> ('pool \<Rightarrow> error option)
   \<Rightarrow> ('pool \<Rightarrow> error option) \<Rightarrow> ('pool \<Rightarrow> string \<Rightarrow> string \<Rightarrow> error + bool)
   \<Rightarrow> 'pool ConfigurationStore \<Rightarrow> (string \<rightharpoonup> string)
   \<Rightarrow> 'pool ConfigurationStore \<times> error option" where
  "Init ParseDuration pgxpool_Connect pool_Ping Ping QueryRow_Scan p Properties =
     (if client p \<noteq> None then (p, Some (Error ErrorAlreadyInitialized))
      else
        (case parseMetadata ParseDuration Properties of
           (m, Some err) \<Rightarrow> (p, Some err)
         | (m, None) \<Rightarrow>
             (let p = p\<lparr>metadata := m\<rparr> in
              (case Connect pgxpool_Connect pool_Ping
                      (connectionString (metadata p)) (maxIdleTime (metadata p)) of
                 Inl err \<Rightarrow> (p, Some err)
               | Inr client' \<Rightarrow>
                   (let p = p\<lparr>client := Some client'\<rparr> in
                    (case Ping client' of
                       Some pingErr \<Rightarrow> (p, Some pingErr)
                     | None \<Rightarrow>
                         (case QueryRow_Scan client' QueryTableExists (configTable (metadata p)) of
                            Inl err \<Rightarrow> (p, Some err)
                          | Inr exists' \<Rightarrow> (p, None))))))))"

subsection \<open>Get\<close>

text \<open>
  Modelled from the spec: \<^verbatim>\<open>configuration.Item\<close> and \<^verbatim>\<open>configuration.GetResponse\<close> are
  declared outside postgres.go. The spec's ConfigurationItem has a value, a version and a
  metadata mapping; its GetResponse is a mapping from key to item. The field \<^verbatim>\<open>Metadata\<close>
  of an item is \<open>ItemMetadata\<close> here (the request has a field of the same name). A Go map
  that was never made is nil: it reads as empty and an assignment to it panics, so
  \<open>Items\<close> is \<open>None\<close> for the nil map.
\<close>

record Item =
  Value :: string
  Version :: string
  ItemMetadata :: "string \<rightharpoonup> string"

record GetResponse =
  Items :: "(string \<rightharpoonup> Item) option"

text \<open>Reading \<^verbatim>\<open>response.Items[k]\<close> and \<^verbatim>\<open>len(response.Items)\<close> of a map that has no key.\<close>

definition Items_at :: "GetResponse \<Rightarrow> string \<Rightarrow> Item option" where
  "Items_at response k = (case Items response of None \<Rightarrow> None | Some items \<Rightarrow> items k)"

text \<open>
  The loop \<^verbatim>\<open>for i := 0; rows.Next(); i++\<close> over the rows the query returned.
  \<^verbatim>\<open>rows.Scan(key, &item.Value, &item.Version, &metadata)\<close> gets \<^verbatim>\<open>key\<close> by value:
  whatever the driver does, it cannot store into the variable, which keeps its zero value
  \<^verbatim>\<open>""\<close>. So \<open>Scan\<close> gives an error or the three values it stored through the pointers.
  \<open>Unmarshal\<close> is \<^verbatim>\<open>json.Unmarshal(metadata, &v)\<close> into a \<^verbatim>\<open>map[string]string\<close>.
\<close>

fun rows_Next ::
  "('row \<Rightarrow> error + string \<times> string \<times> string) \<Rightarrow> (string \<Rightarrow> error + (string \<rightharpoonup> string))
   \<Rightarrow> 'row list \<Rightarrow> GetResponse \<Rightarrow> (GetResponse option \<times> error option) outcome" where
  "rows_Next Scan Unmarshal [] response = Returns (Some response, None)"
| "rows_Next Scan Unmarshal (row # rows) response =
     (let key = [] in
      (case Scan row of
         Inl err \<Rightarrow> Returns (None, Some err)
       | Inr (value, version, metadata') \<Rightarrow>
           (case Unmarshal metadata' of
              Inl err \<Rightarrow> Returns (None, Some err)
            | Inr v \<Rightarrow>
                (let item = \<lparr>Value = value, Version = version, ItemMetadata = v\<rparr> in
                 (case Items response of
                    None \<Rightarrow> Panics NilMapAssignment
                  | Some items \<Rightarrow>
                      rows_Next Scan Unmarshal rows
                        (response\<lparr>Items := Some (items(key \<mapsto> item))\<rparr>))))))"

text \<open>
  \<^verbatim>\<open>Get\<close>; \<open>Query\<close> is \<^verbatim>\<open>p.client.Query(ctx, query)\<close>, an error or the rows. Calling it
  on a nil pool dereferences the nil pointer. \<^verbatim>\<open>configuration.GetResponse{}\<close> has the
  nil map.
\<close>

definition Get ::
  "('pool \<Rightarrow> string \<Rightarrow> error + 'row list) \<Rightarrow> ('row \<Rightarrow> error + string \<times> string \<times> string)
   \<Rightarrow> (string \<Rightarrow> error + (string \<rightharpoonup> string))
   \<Rightarrow> 'pool ConfigurationStore \<Rightarrow> GetRequest \<Rightarrow> (GetResponse option \<times> error option) outcome" where
  "Get Query Scan Unmarshal p req =
     (case buildQuery req (configTable (metadata p)) of
        (query, Some err) \<Rightarrow> Returns (None, Some err)
      | (query, None) \<Rightarrow>
          (case client p of
             None \<Rightarrow> Panics NilPointerDereference
           | Some pool \<Rightarrow>
               (case Query pool query of
                  Inl err \<Rightarrow>
                    (if err = ErrNoRows then Returns (Some \<lparr>Items = None\<rparr>, None)
                     else Returns (None, Some err))
                | Inr rows \<Rightarrow> rows_Next Scan Unmarshal rows \<lparr>Items = None\<rparr>)))"

subsection \<open>Subscribe and Unsubscribe\<close>

text \<open>
  \<^verbatim>\<open>uuid.New().String()\<close>: the sixteen bytes of the identifier in lower-case hexadecimal,
  as \<^verbatim>\<open>xxxxxxxx-xxxx-xxxx-xxxx-xxxxxxxxxxxx\<close>. The bytes \<^verbatim>\<open>uuid.New()\<close> drew are an input of
  \<^verbatim>\<open>Subscribe\<close>.
\<close>

type_synonym UUID = "8 word list"

definition hexdigit :: "nat \<Rightarrow> char" where
  "hexdigit n = ''0123456789abcdef'' ! (n mod 16)"

definition encodeHex :: "8 word list \<Rightarrow> string" where
  "encodeHex bs = concat (map (\<lambda>b. [hexdigit (unat b div 16), hexdigit (unat b mod 16)]) bs)"

definition uuid_String :: "UUID \<Rightarrow> string" where
  "uuid_String u =
     encodeHex (take 4 u) @ ''-'' @ encodeHex (take 2 (drop 4 u)) @ ''-''
     @ encodeHex (take 2 (drop 6 u)) @ ''-'' @ encodeHex (take 2 (drop 8 u)) @ ''-''
     @ encodeHex (take 6 (drop 10 u))"

text \<open>
  What lives outside the store: how many channels \<^verbatim>\<open>make\<close> has handed out (the next one
  gets this number), which channels are closed, and the calls of \<^verbatim>\<open>doSubscribe\<close> started
  with \<^verbatim>\<open>go\<close>, each with its channel name, identifier and stop channel.
\<close>

record runtime =
  chans :: nat
  closed :: "chan set"
  goroutines :: "(string \<times> string \<times> chan) list"

text \<open>\<^verbatim>\<open>close(ch)\<close>: closing a closed channel panics.\<close>

definition close :: "chan \<Rightarrow> runtime \<Rightarrow> runtime outcome" where
  "close ch rt =
     (if ch \<in> closed rt then Panics CloseOfClosedChannel
      else Returns (rt\<lparr>closed := insert ch (closed rt)\<rparr>))"

definition Subscribe ::
  "UUID \<Rightarrow> 'pool ConfigurationStore \<times> runtime
   \<Rightarrow> ((string \<times> error option) \<times> 'pool ConfigurationStore \<times> runtime) outcome" where
  "Subscribe uuid_New = (\<lambda>(p, rt).
     (let subscribeID = uuid_String uuid_New;
          key = ''listen '' @ configTable (metadata p)
      in
      (case (case subscribeStopChanMap p key of
               Some oldStopChan \<Rightarrow> close oldStopChan rt
             | None \<Rightarrow> Returns rt) of
         Panics e \<Rightarrow> Panics e
       | Returns rt \<Rightarrow>
           (let stop = chans rt;
                rt = rt\<lparr>chans := Suc stop\<rparr>;
                p = p\<lparr>subscribeStopChanMap := (subscribeStopChanMap p)(subscribeID \<mapsto> stop)\<rparr>;
                rt = rt\<lparr>goroutines := goroutines rt @ [(key, subscribeID, stop)]\<rparr>
            in Returns ((subscribeID, None), p, rt)))))"

definition Unsubscribe ::
  "string \<Rightarrow> 'pool ConfigurationStore \<times> runtime
   \<Rightarrow> (error option \<times> 'pool ConfigurationStore \<times> runtime) outcome" where
  "Unsubscribe ID = (\<lambda>(p, rt).
     (case subscribeStopChanMap p ID of
        Some oldStopChan \<Rightarrow>
          (let p = p\<lparr>subscribeStopChanMap := (subscribeStopChanMap p)(ID := None)\<rparr> in
           (case close oldStopChan rt of
              Panics e \<Rightarrow> Panics e
            | Returns rt \<Rightarrow> Returns (None, p, rt)))
      | None \<Rightarrow> Returns (None, p, rt)))"

text \<open>A store that was initialised for a table and has no subscription yet.\<close>

definition fresh_runtime :: runtime where
  "fresh_runtime = \<lparr>chans = 0, closed = {}, goroutines = []\<rparr>"

subsection \<open>Decoding a notification\<close>

text \<open>
  What \<^verbatim>\<open>json.Unmarshal\<close> stores in an \<^verbatim>\<open>interface{}\<close>: nil, a bool, a float64, a string,
  a slice or a \<^verbatim>\<open>map[string]interface{}\<close>. A map is given by its entries, each key once, in
  the order in which \<^verbatim>\<open>range\<close> or \<^verbatim>\<open>MapKeys\<close> yields them when the code walks the map (it
  walks each map once); a theorem about every list is a theorem about every order.
\<close>

datatype gov =
    GoNil
  | GoBool bool
  | GoFloat64 real
  | GoString string
  | GoSlice "gov list"
  | GoMap "(string \<times> gov) list"

fun dynamic_type :: "gov \<Rightarrow> string" where
  "dynamic_type GoNil = ''nil''"
| "dynamic_type (GoBool b) = ''bool''"
| "dynamic_type (GoFloat64 x) = ''float64''"
| "dynamic_type (GoString s) = ''string''"
| "dynamic_type (GoSlice vs) = ''[]interface {}''"
| "dynamic_type (GoMap kvs) = ''map[string]interface {}''"

text \<open>The type assertions \<^verbatim>\<open>v.(string)\<close> and \<^verbatim>\<open>v.(map[string]interface{})\<close>.\<close>

fun assert_string :: "gov \<Rightarrow> panic + string" where
  "assert_string (GoString s) = Inr s"
| "assert_string v = Inl (InterfaceConversion (dynamic_type v @ '', not string''))"

fun assert_map :: "gov \<Rightarrow> panic + (string \<times> gov) list" where
  "assert_map (GoMap kvs) = Inr kvs"
| "assert_map v = Inl (InterfaceConversion (dynamic_type v @ '', not map[string]interface {}''))"

text \<open>
  Modelled from the spec: \<^verbatim>\<open>configuration.UpdateEvent\<close> is declared outside postgres.go;
  the spec gives it the subscription identifier and a mapping from key to item (the field
  \<^verbatim>\<open>Items\<close>, here \<open>EventItems\<close>).
\<close>

record UpdateEvent =
  EventItems :: "string \<rightharpoonup> Item"
  ID :: string

text \<open>\<^verbatim>\<open>for k, v := range a { m[k] = v.(string) }\<close>\<close>

fun range_a :: "(string \<times> gov) list \<Rightarrow> (string \<rightharpoonup> string) \<Rightarrow> panic + (string \<rightharpoonup> string)" where
  "range_a [] m = Inr m"
| "range_a ((k, v) # rest) m =
     (case assert_string v of
        Inl e \<Rightarrow> Inl e
      | Inr s \<Rightarrow> range_a rest (m(k \<mapsto> s)))"

text \<open>
  \<^verbatim>\<open>for _, k := range row.MapKeys()\<close> with its \<^verbatim>\<open>switch strings.ToLower(strKey)\<close>. The
  state is the four variables \<^verbatim>\<open>key\<close>, \<^verbatim>\<open>value\<close>, \<^verbatim>\<open>version\<close> and \<^verbatim>\<open>m\<close>;
  \<^verbatim>\<open>strings.ToLower\<close> is the first parameter.
\<close>

fun range_MapKeys ::
  "(string \<Rightarrow> string) \<Rightarrow> (string \<times> gov) list \<Rightarrow> string \<times> string \<times> string \<times> (string \<rightharpoonup> string)
   \<Rightarrow> panic + string \<times> string \<times> string \<times> (string \<rightharpoonup> string)" where
  "range_MapKeys ToLower [] vars = Inr vars"
| "range_MapKeys ToLower ((strKey, v) # rest) (key, value, version, m) =
     (if ToLower strKey = ''key'' then
        (case assert_string v of
           Inl e \<Rightarrow> Inl e
         | Inr s \<Rightarrow> range_MapKeys ToLower rest (s, value, version, m))
      else if ToLower strKey = ''value'' then
        (case assert_string v of
           Inl e \<Rightarrow> Inl e
         | Inr s \<Rightarrow> range_MapKeys ToLower rest (key, s, version, m))
      else if ToLower strKey = ''version'' then
        (case assert_string v of
           Inl e \<Rightarrow> Inl e
         | Inr s \<Rightarrow> range_MapKeys ToLower rest (key, value, s, m))
      else if ToLower strKey = ''metadata'' then
        (case assert_map v of
           Inl e \<Rightarrow> Inl e
         | Inr a \<Rightarrow>
             (case range_a a m of
                Inl e \<Rightarrow> Inl e
              | Inr m \<Rightarrow> range_MapKeys ToLower rest (key, value, version, m)))
      else range_MapKeys ToLower rest (key, value, version, m))"

text \<open>
  What the subscription code does that can be seen from outside: a line it logs, or a
  call of the caller's handler with an event.
\<close>

datatype logline =
    ErrorInUnMarshal error
  | PanicRecovered panic
  | FailToCallHandler error
  | ErrorListening error
  | ErrorWaiting error
  | ErrorAcquiring error

datatype effect = Logged logline | Handled UpdateEvent

text \<open>
  The body of \<^verbatim>\<open>handleSubscribedChange\<close>, up to its return or its panic: the effects so
  far and the panic, if any. \<open>Unmarshal\<close> is \<^verbatim>\<open>json.Unmarshal\<close> into the map
  \<^verbatim>\<open>payload\<close>: an error or the entries of the map afterwards. \<^verbatim>\<open>payload["data"]\<close> is nil
  when the key is absent, and the \<^verbatim>\<open>Kind\<close> of a value is \<^verbatim>\<open>reflect.Map\<close> exactly for a
  map. The handler returns nil or an error, or panics.
\<close>

definition row_of :: "(string \<times> gov) list \<Rightarrow> gov" where
  "row_of payload = (case map_of payload ''data'' of None \<Rightarrow> GoNil | Some v \<Rightarrow> v)"

definition handleSubscribedChange_body ::
  "(string \<Rightarrow> error + (string \<times> gov) list) \<Rightarrow> (string \<Rightarrow> string)
   \<Rightarrow> (UpdateEvent \<Rightarrow> error option outcome) \<Rightarrow> string \<Rightarrow> string
   \<Rightarrow> effect list \<times> panic option" where
  "handleSubscribedChange_body Unmarshal ToLower handler msg_Payload id' =
     (case Unmarshal msg_Payload of
        Inl err \<Rightarrow> ([Logged (ErrorInUnMarshal err)], None)
      | Inr payload \<Rightarrow>
          (case (case row_of payload of
                   GoMap row \<Rightarrow> range_MapKeys ToLower row ([], [], [], Map.empty)
                 | _ \<Rightarrow> Inr ([], [], [], Map.empty)) of
             Inl e \<Rightarrow> ([], Some e)
           | Inr (key, value, version, m) \<Rightarrow>
               (let e = \<lparr>EventItems =
                           [key \<mapsto> \<lparr>Value = value, Version = version, ItemMetadata = m\<rparr>],
                         ID = id'\<rparr>
                in
                (case handler e of
                   Panics pe \<Rightarrow> ([Handled e], Some pe)
                 | Returns None \<Rightarrow> ([Handled e], None)
                 | Returns (Some err) \<Rightarrow> ([Handled e, Logged (FailToCallHandler err)], None)))))"

text \<open>
  \<^verbatim>\<open>handleSubscribedChange\<close> with its deferred \<^verbatim>\<open>recover\<close>: a panic of the body is logged
  and the function returns.
\<close>

definition handleSubscribedChange ::
  "(string \<Rightarrow> error + (string \<times> gov) list) \<Rightarrow> (string \<Rightarrow> string)
   \<Rightarrow> (UpdateEvent \<Rightarrow> error option outcome) \<Rightarrow> string \<Rightarrow> string \<Rightarrow> effect list" where
  "handleSubscribedChange Unmarshal ToLower handler msg_Payload id' =
     (case handleSubscribedChange_body Unmarshal ToLower handler msg_Payload id' of
        (effects, None) \<Rightarrow> effects
      | (effects, Some err) \<Rightarrow> effects @ [Logged (PanicRecovered err)])"

text \<open>The events the handler was called with, in order.\<close>

fun handled :: "effect list \<Rightarrow> UpdateEvent list" where
  "handled [] = []"
| "handled (Handled e # effects) = e # handled effects"
| "handled (Logged l # effects) = handled effects"

subsection \<open>The listener\<close>

text \<open>
  One answer of \<^verbatim>\<open>WaitForNotification\<close>: a notification with its payload, or an error
  together with the value of
  \<^verbatim>\<open>pgconn.Timeout(err) || errors.Is(ctxTimeout.Err(), context.Canceled)\<close>.
\<close>

datatype wait = Notification string | WaitError error bool

text \<open>
  Where a listener stands once the answers it was given are used up: still blocked in
  \<^verbatim>\<open>WaitForNotification\<close>, returned, or dead of a panic nothing recovered.
\<close>

datatype listener = Listening | Returned | Crashed panic

text \<open>The \<^verbatim>\<open>for\<close> loop of \<^verbatim>\<open>doSubscribe\<close>, over the answers of \<^verbatim>\<open>WaitForNotification\<close>.\<close>

fun wait_loop ::
  "(string \<Rightarrow> error + (string \<times> gov) list) \<Rightarrow> (string \<Rightarrow> string)
   \<Rightarrow> (UpdateEvent \<Rightarrow> error option outcome) \<Rightarrow> string \<Rightarrow> wait list
   \<Rightarrow> effect list \<times> listener" where
  "wait_loop Unmarshal ToLower handler id' [] = ([], Listening)"
| "wait_loop Unmarshal ToLower handler id' (Notification msg_Payload # waits) =
     (let effects = handleSubscribedChange Unmarshal ToLower handler msg_Payload id';
          (later, state) = wait_loop Unmarshal ToLower handler id' waits
      in (effects @ later, state))"
| "wait_loop Unmarshal ToLower handler id' (WaitError err quiet # waits) =
     ((if \<not> quiet then [Logged (ErrorWaiting err)] else []), Returned)"

text \<open>
  \<^verbatim>\<open>doSubscribe\<close>. \<open>Acquire\<close> and \<open>Exec\<close> are the errors of \<^verbatim>\<open>p.client.Acquire\<close> and of
  the \<^verbatim>\<open>listen\<close> command. After a failed \<^verbatim>\<open>Acquire\<close> the code writes the error to
  standard error and goes on with a nil connection, and \<^verbatim>\<open>conn.Exec\<close> dereferences it.
  The parameter \<^verbatim>\<open>stop\<close> is never read.
\<close>

definition doSubscribe ::
  "(string \<Rightarrow> error + (string \<times> gov) list) \<Rightarrow> (string \<Rightarrow> string)
   \<Rightarrow> (UpdateEvent \<Rightarrow> error option outcome) \<Rightarrow> error option \<Rightarrow> error option
   \<Rightarrow> string \<Rightarrow> string \<Rightarrow> chan \<Rightarrow> wait list \<Rightarrow> effect list \<times> listener" where
  "doSubscribe Unmarshal ToLower handler Acquire Exec channel id' stop waits =
     (case Acquire of
        Some err \<Rightarrow> ([Logged (ErrorAcquiring err)], Crashed NilPointerDereference)
      | None \<Rightarrow>
          (case Exec of
             Some err \<Rightarrow> ([Logged (ErrorListening err)], Returned)
           | None \<Rightarrow> wait_loop Unmarshal ToLower handler id' waits))"

text \<open>
  Stand-ins for the libraries where a closed example needs a function: a decoder known
  at one text (every other text is rejected), and \<^verbatim>\<open>strings.ToLower\<close> on ASCII letters
  (every other byte is kept).
\<close>

definition decodes :: "string \<Rightarrow> 'a \<Rightarrow> string \<Rightarrow> error + 'a" where
  "decodes text' result s =
     (if s = text' then Inr result else Inl (Error ''invalid character''))"

definition lower_char :: "char \<Rightarrow> char" where
  "lower_char c =
     (case map_of (zip ''ABCDEFGHIJKLMNOPQRSTUVWXYZ'' ''abcdefghijklmnopqrstuvwxyz'') c of
        Some l \<Rightarrow> l
      | None \<Rightarrow> c)"

definition ToLower_ASCII :: "string \<Rightarrow> string" where
  "ToLower_ASCII s = map lower_char s"

text \<open>
  Three notification payloads and what \<^verbatim>\<open>json.Unmarshal\<close> makes of them: a \<^verbatim>\<open>data\<close> field
  that is a number, a row whose metadata holds a number, and the row of the spec's
  example in mixed case. \<open>json_examples\<close> is the decoder at these three texts.
\<close>

definition payload_data_number :: string where
  \<open>payload_data_number = ''{"data":5}''\<close>

definition payload_metadata_number :: string where
  \<open>payload_metadata_number = ''{"data":{"key":"k1","metadata":{"m":5}}}''\<close>

definition payload_mixed_case :: string where
  \<open>payload_mixed_case =
     ''{"data":{"Key":"k1","Value":"v1","Version":"1","Metadata":{"m":"x"}}}''\<close>

definition json_examples :: "string \<Rightarrow> error + (string \<times> gov) list" where
  "json_examples s =
     (if s = payload_data_number then Inr [(''data'', GoFloat64 5)]
      else if s = payload_metadata_number then
        Inr [(''data'', GoMap [(''key'', GoString ''k1''),
                               (''metadata'', GoMap [(''m'', GoFloat64 5)])])]
      else if s = payload_mixed_case then
        Inr [(''data'', GoMap [(''Key'', GoString ''k1''), (''Value'', GoString ''v1''),
                               (''Version'', GoString ''1''),
                               (''Metadata'', GoMap [(''m'', GoString ''x'')])])]
      else Inl (Error ''invalid character''))"

text \<open>
  The words of claim C4: a field of the row has the wrong dynamic type when it is a
  \<^verbatim>\<open>key\<close>, \<^verbatim>\<open>value\<close> or \<^verbatim>\<open>version\<close> (in any case of letters) that is no string, or a
  \<^verbatim>\<open>metadata\<close> that is no mapping of strings to strings.
\<close>

fun is_string :: "gov \<Rightarrow> bool" where
  "is_string (GoString s) = True"
| "is_string v = False"

fun is_string_map :: "gov \<Rightarrow> bool" where
  "is_string_map (GoMap a) = list_all (\<lambda>kv. is_string (snd kv)) a"
| "is_string_map v = False"

definition wrong_dynamic_type :: "(string \<Rightarrow> string) \<Rightarrow> string \<times> gov \<Rightarrow> bool" where
  "wrong_dynamic_type ToLower kv =
     (if ToLower (fst kv) = ''key'' \<or> ToLower (fst kv) = ''value''
         \<or> ToLower (fst kv) = ''version''
      then \<not> is_string (snd kv)
      else if ToLower (fst kv) = ''metadata'' then \<not> is_string_map (snd kv)
      else False)"

text \<open>Two calls of \<^verbatim>\<open>Subscribe\<close> in a row, the second on the state the first left.\<close>

definition Subscribe_twice ::
  "UUID \<Rightarrow> UUID \<Rightarrow> 'pool ConfigurationStore \<times> runtime
   \<Rightarrow> ((string \<times> error option) \<times> (string \<times> error option)
       \<times> 'pool ConfigurationStore \<times> runtime) outcome" where
  "Subscribe_twice u1 u2 s =
     (case Subscribe u1 s of
        Panics e \<Rightarrow> Panics e
      | Returns (r1, s1) \<Rightarrow>
          (case Subscribe u2 s1 of
             Panics e \<Rightarrow> Panics e
           | Returns (r2, s2) \<Rightarrow> Returns (r1, r2, s2)))"

text \<open>
  \<^verbatim>\<open>NewPostgresConfigurationStore\<close>: a store with every field but the logger at its zero
  value.
\<close>

definition NewPostgresConfigurationStore :: "'pool ConfigurationStore" where
  "NewPostgresConfigurationStore =
     \<lparr>metadata = metadata_zero, client = None, subscribeStopChanMap = Map.empty\<rparr>"

subsection \<open>Concrete surroundings for the examples\<close>

text \<open>
  A store initialised for the table \<^verbatim>\<open>cfg\<close> (its pool is the one value of \<^typ>\<open>unit\<close>), a
  pool that connects and answers every ping, a catalogue query that finds no table, a
  pool that answers one query text with given rows (of four text columns), a driver that
  stores every column it has a pointer for, a driver that refuses a destination that is no
  pointer, and a handler that returns nil.
\<close>

definition store_cfg :: "unit ConfigurationStore" where
  "store_cfg =
     \<lparr>metadata = \<lparr>maxIdleTime = 30000000000, connectionString = ''host=db'',
                   configTable = ''cfg''\<rparr>,
      client = Some (), subscribeStopChanMap = Map.empty\<rparr>"

definition pool_connects :: "string \<Rightarrow> error + unit" where
  "pool_connects conn = Inr ()"

definition ping_answers :: "unit \<Rightarrow> error option" where
  "ping_answers pool = None"

definition table_not_found :: "unit \<Rightarrow> string \<Rightarrow> string \<Rightarrow> error + bool" where
  "table_not_found pool query tbl = Inr False"

definition Query_answers :: "string \<Rightarrow> 'row list \<Rightarrow> unit \<Rightarrow> string \<Rightarrow> error + 'row list" where
  "Query_answers text' rows pool query = decodes text' rows query"

definition Scan_stores ::
  "string \<times> string \<times> string \<times> string \<Rightarrow> error + string \<times> string \<times> string" where
  "Scan_stores row = (case row of (k, value, version, metadata') \<Rightarrow> Inr (value, version, metadata'))"

definition Scan_refuses ::
  "string \<times> string \<times> string \<times> string \<Rightarrow> error + string \<times> string \<times> string" where
  "Scan_refuses row = Inl (Error ''can not scan into a destination that is not a pointer'')"

definition handler_returns_nil :: "UpdateEvent \<Rightarrow> error option outcome" where
  "handler_returns_nil e = Returns None"

definition owner_x :: string where
  \<open>owner_x = ''{"owner":"x"}''\<close>

section \<open>Properties\<close>

subsection \<open>parseMetadata\<close>

lemma whole_seconds_30s: "whole_seconds ''30s'' = Inr 30000000000"
  by (simp add: whole_seconds_def)

lemma whole_seconds_soon: "whole_seconds ''soon'' = Inl (Error ''time: invalid duration soon'')"
  by (simp add: whole_seconds_def)

lemma whole_seconds_empty: "whole_seconds [] = Inl (Error ''time: invalid duration '')"
  by (simp add: whole_seconds_def)

text \<open>
  Claim C5 says that a missing \<^verbatim>\<open>connMaxIdleTime\<close> gives a default idle timeout and not
  the zero duration, and that a value that is no duration is rejected. Against it: with the
  key absent the timeout stays at the zero value of \<^verbatim>\<open>metadata{}\<close>, and the empty string,
  which is no duration, is accepted and gives the zero duration too.
\<close>

theorem parseMetadata_absent_timeout_is_zero:
  "parseMetadata whole_seconds [''connectionString'' \<mapsto> ''host=db'', ''table'' \<mapsto> ''cfg'']
     = (\<lparr>maxIdleTime = 0, connectionString = ''host=db'', configTable = ''cfg''\<rparr>, None)
   \<and> whole_seconds [] = Inl (Error ''time: invalid duration '')
   \<and> parseMetadata whole_seconds
       [''connectionString'' \<mapsto> ''host=db'', ''table'' \<mapsto> ''cfg'', ''connMaxIdleTime'' \<mapsto> []]
     = (\<lparr>maxIdleTime = 0, connectionString = ''host=db'', configTable = ''cfg''\<rparr>, None)"
  by (simp add: parseMetadata_def metadata_zero_def connectionStringKey_def configtablekey_def
      connMaxIdleTimeKey_def IsASCII_def maxIdentifierLength_def whole_seconds_empty)

text \<open>
  Claim C5, amended: for every options mapping with a valid connection string and table
  name (non-empty, ASCII, at most 64 bytes), if \<^verbatim>\<open>connMaxIdleTime\<close> is absent or empty,
  parsing succeeds and the idle timeout is the zero duration; if it is present and not
  empty, parsing succeeds with the parsed duration when \<^verbatim>\<open>time.ParseDuration\<close> accepts it
  and fails with the error \<^verbatim>\<open>ErrorMissinMaxTimeout\<close> when it does not.
\<close>

theorem parseMetadata_idle_timeout:
  assumes "Properties connectionStringKey = Some conn" and "conn \<noteq> []"
    and "Properties configtablekey = Some tbl" and "tbl \<noteq> []"
    and "IsASCII tbl" and "length tbl \<le> maxIdentifierLength"
  shows "(present (Properties connMaxIdleTimeKey) = None \<longrightarrow>
            parseMetadata ParseDuration Properties
              = (\<lparr>maxIdleTime = 0, connectionString = conn, configTable = tbl\<rparr>, None))
       \<and> (\<forall>mxTimeout. present (Properties connMaxIdleTimeKey) = Some mxTimeout \<longrightarrow>
            (case ParseDuration mxTimeout of
               Inr t \<Rightarrow>
                 parseMetadata ParseDuration Properties
                   = (\<lparr>maxIdleTime = t, connectionString = conn, configTable = tbl\<rparr>, None)
             | Inl err \<Rightarrow>
                 snd (parseMetadata ParseDuration Properties)
                   = Some (Error ErrorMissinMaxTimeout)))"
  using assms
  by (auto simp: parseMetadata_def metadata_zero_def split: sum.splits)

text \<open>
  The three cases of C5 at concrete options: no timeout, the timeout \<^verbatim>\<open>30s\<close>, and the
  timeout \<^verbatim>\<open>soon\<close>.
\<close>

theorem parseMetadata_idle_timeout_witness:
  "parseMetadata whole_seconds [''connectionString'' \<mapsto> ''host=db'', ''table'' \<mapsto> ''cfg'']
     = (\<lparr>maxIdleTime = 0, connectionString = ''host=db'', configTable = ''cfg''\<rparr>, None)
   \<and> parseMetadata whole_seconds
       [''connectionString'' \<mapsto> ''host=db'', ''table'' \<mapsto> ''cfg'', ''connMaxIdleTime'' \<mapsto> ''30s'']
     = (\<lparr>maxIdleTime = 30000000000, connectionString = ''host=db'', configTable = ''cfg''\<rparr>,
        None)
   \<and> snd (parseMetadata whole_seconds
       [''connectionString'' \<mapsto> ''host=db'', ''table'' \<mapsto> ''cfg'', ''connMaxIdleTime'' \<mapsto> ''soon''])
     = Some (Error ErrorMissinMaxTimeout)"
proof -
  have k: "connectionStringKey \<noteq> configtablekey" "connectionStringKey \<noteq> connMaxIdleTimeKey"
    "configtablekey \<noteq> connMaxIdleTimeKey"
    by (simp_all add: connectionStringKey_def configtablekey_def connMaxIdleTimeKey_def)
  have t: "IsASCII ''cfg''" "length ''cfg'' \<le> maxIdentifierLength"
    by (simp_all add: IsASCII_def maxIdentifierLength_def)
  let ?P = "\<lambda>mx. [connectionStringKey \<mapsto> ''host=db'', configtablekey \<mapsto> ''cfg'',
                    connMaxIdleTimeKey \<mapsto> mx]"
  have a: "parseMetadata whole_seconds [connectionStringKey \<mapsto> ''host=db'', configtablekey \<mapsto> ''cfg'']
     = (\<lparr>maxIdleTime = 0, connectionString = ''host=db'', configTable = ''cfg''\<rparr>, None)"
    using parseMetadata_idle_timeout
      [of "[connectionStringKey \<mapsto> ''host=db'', configtablekey \<mapsto> ''cfg'']"
        "''host=db''" "''cfg''" whole_seconds] k t
    by simp
  have b: "parseMetadata whole_seconds (?P ''30s'')
     = (\<lparr>maxIdleTime = 30000000000, connectionString = ''host=db'', configTable = ''cfg''\<rparr>,
        None)"
    using parseMetadata_idle_timeout [of "?P ''30s''" "''host=db''" "''cfg''" whole_seconds] k t
    by (simp add: whole_seconds_30s)
  have c: "snd (parseMetadata whole_seconds (?P ''soon'')) = Some (Error ErrorMissinMaxTimeout)"
    using parseMetadata_idle_timeout [of "?P ''soon''" "''host=db''" "''cfg''" whole_seconds] k t
    by (simp add: whole_seconds_soon)
  show ?thesis
    using a b c
    by (simp add: connectionStringKey_def configtablekey_def connMaxIdleTimeKey_def)
qed

subsection \<open>buildQuery\<close>

lemma Join_Cons: "Join (e # es) sep = e @ (if es = [] then [] else sep @ Join es sep)"
  by (cases es) simp_all

text \<open>
  The builder writes a quote, the keys joined by quote-comma-quote, and a quote: the
  comma-joined list of the quoted keys.
\<close>

lemma Join_quoted:
  "keys \<noteq> [] \<Longrightarrow>
     [CHR 0x27] @ Join keys [CHR 0x27, CHR '','', CHR 0x27] @ [CHR 0x27]
       = Join (map spec_quoted keys) '',''"
proof (induction keys)
  case Nil
  then show ?case by simp
next
  case (Cons k ks)
  show ?case
  proof (cases "ks = []")
    case True
    then show ?thesis by (simp add: spec_quoted_def)
  next
    case False
    have "Join (map spec_quoted ks) '','' =
        [CHR 0x27] @ Join ks [CHR 0x27, CHR '','', CHR 0x27] @ [CHR 0x27]"
      using Cons.IH [OF False] by simp
    then show ?thesis
      using False by (simp add: Join_Cons spec_quoted_def [of k])
  qed
qed

text \<open>
  The loop with its counter writes the separator after every clause but the last: with
  \<open>j\<close> entries done and \<open>i\<close> in all, it appends the remaining clauses joined by AND.
\<close>

lemma range_Metadata_Join:
  "j + length es = i \<Longrightarrow>
     range_Metadata i j es s = s @ Join (map spec_equality_clause es) '' AND ''"
proof (induction es arbitrary: j s)
  case Nil
  then show ?case by simp
next
  case (Cons e es)
  obtain k v where e: "e = (k, v)" by (cases e)
  have step: "Suc j + length es = i" using Cons.prems by simp
  have lt: "Suc j < i \<longleftrightarrow> es \<noteq> []" using Cons.prems by (cases es) auto
  show ?case
    unfolding e
    by (simp add: Cons.IH [OF step] lt Join_Cons spec_equality_clause_def spec_quoted_def Let_def)
qed

lemma buildQuery_no_error: "snd (buildQuery req tbl) = None"
  by (simp add: buildQuery_def Let_def)

lemma buildQuery_spec_query:
  "buildQuery req tbl = (spec_query (Keys req) (Metadata req) tbl, None)"
proof -
  have md: "range_Metadata (length (Metadata req)) 0 (Metadata req) '' AND ''
      = '' AND '' @ Join (map spec_equality_clause (Metadata req)) '' AND ''"
    by (rule range_Metadata_Join) simp
  show ?thesis
  proof (cases "Keys req = []")
    case True
    then show ?thesis by (simp add: buildQuery_def spec_query_def md)
  next
    case False
    from Join_quoted [OF False] show ?thesis
      using False by (simp add: buildQuery_def spec_query_def md)
  qed
qed

text \<open>
  Claim C6: for every key list, metadata mapping (in whatever order it is walked) and
  table name, \<^verbatim>\<open>buildQuery\<close> returns a query and no error; the query is the one of the
  spec's words: exactly \<^verbatim>\<open>SELECT * FROM <table>\<close> without keys and filters; with keys, the
  restriction \<^verbatim>\<open>WHERE KEY IN (...)\<close> over the comma-joined quoted keys; with filters, one
  equality clause per filter, joined by \<^verbatim>\<open>AND\<close> and appended after \<^verbatim>\<open>AND\<close>.
\<close>

theorem buildQuery_refines_spec:
  "buildQuery req tbl = (spec_query (Keys req) (Metadata req) tbl, None)
   \<and> spec_query [] [] tbl = ''SELECT * FROM '' @ tbl
   \<and> (Keys req \<noteq> [] \<longrightarrow>
        spec_query (Keys req) [] tbl
          = ''SELECT * FROM '' @ tbl @ '' WHERE KEY IN (''
            @ Join (map spec_quoted (Keys req)) '','' @ '')'')
   \<and> (Metadata req \<noteq> [] \<longrightarrow>
        spec_query (Keys req) (Metadata req) tbl
          = spec_query (Keys req) [] tbl @ '' AND ''
            @ Join (map spec_equality_clause (Metadata req)) '' AND '')"
  by (simp add: buildQuery_spec_query) (simp add: spec_query_def)

text \<open>C6 at the keys \<^verbatim>\<open>a\<close>, \<^verbatim>\<open>b\<close>, the filter \<^verbatim>\<open>env = prod\<close> and the table \<^verbatim>\<open>cfg\<close>.\<close>

theorem buildQuery_refines_spec_witness:
  "buildQuery \<lparr>Keys = [''a'', ''b''], Metadata = [(''env'', ''prod'')]\<rparr> ''cfg''
     = (''SELECT * FROM cfg WHERE KEY IN ('a','b') AND env='prod'' @ [CHR 0x27], None)
   \<and> buildQuery \<lparr>Keys = [], Metadata = []\<rparr> ''cfg'' = (''SELECT * FROM cfg'', None)"
  using buildQuery_refines_spec
      [of "\<lparr>Keys = [''a'', ''b''], Metadata = [(''env'', ''prod'')]\<rparr>" "''cfg''"]
    buildQuery_refines_spec [of "\<lparr>Keys = [], Metadata = []\<rparr>" "''cfg''"]
  by (simp add: spec_query_def spec_quoted_def spec_equality_clause_def)

text \<open>
  Claim C8 says that two calls of \<^verbatim>\<open>buildQuery\<close> with the same input give the same
  string. Against it: the mapping with \<^verbatim>\<open>a = 1\<close> and \<^verbatim>\<open>b = 2\<close> can be walked in two
  orders, and the two queries differ.
\<close>

theorem buildQuery_order_of_range:
  "ranges_over [''a'' \<mapsto> ''1'', ''b'' \<mapsto> ''2''] [(''a'', ''1''), (''b'', ''2'')]
   \<and> ranges_over [''a'' \<mapsto> ''1'', ''b'' \<mapsto> ''2''] [(''b'', ''2''), (''a'', ''1'')]
   \<and> buildQuery \<lparr>Keys = [], Metadata = [(''a'', ''1''), (''b'', ''2'')]\<rparr> ''cfg''
     \<noteq> buildQuery \<lparr>Keys = [], Metadata = [(''b'', ''2''), (''a'', ''1'')]\<rparr> ''cfg''"
  by (auto simp: ranges_over_def buildQuery_def fun_eq_iff)

lemma ranges_over_length:
  assumes "ranges_over m es"
  shows "length es = card (dom m)"
proof -
  have "dom m = set (map fst es)"
    using assms by (force simp: ranges_over_def dom_map_of_conv_image_fst)
  moreover have "distinct (map fst es)"
    using assms by (simp add: ranges_over_def)
  ultimately show ?thesis
    using distinct_card [of "map fst es"] by simp
qed

text \<open>A walk of a mapping visits exactly its entries, each once.\<close>

lemma ranges_over_set:
  assumes "ranges_over m es"
  shows "set es = {(k, v). m k = Some v}" and "distinct es"
proof -
  have d: "distinct (map fst es)" and m: "map_of es = m"
    using assms by (simp_all add: ranges_over_def)
  show "set es = {(k, v). m k = Some v}"
    using map_of_eq_Some_iff [OF d] m by auto
  show "distinct es"
    using d by (rule distinct_map [THEN iffD1, THEN conjunct1])
qed

lemma ranges_over_mset:
  assumes "ranges_over m es1" and "ranges_over m es2"
  shows "mset es1 = mset es2"
  using ranges_over_set [OF assms(1)] ranges_over_set [OF assms(2)]
  by (simp add: set_eq_iff_mset_eq_distinct [symmetric])

lemma ranges_over_one:
  assumes "ranges_over m es1" and "ranges_over m es2" and "card (dom m) \<le> 1"
  shows "es1 = es2"
proof -
  have l1: "length es1 = card (dom m)" and l2: "length es2 = card (dom m)"
    using assms ranges_over_length by auto
  show ?thesis
  proof (cases es1)
    case Nil
    then show ?thesis using l1 l2 by simp
  next
    case (Cons e1 r1)
    then have "Suc (length r1) \<le> 1" using l1 assms(3) by simp
    then have r1: "r1 = []" by simp
    then obtain e2 where e2: "es2 = [e2]" using l1 l2 Cons by (cases es2) auto
    have "map_of es1 = map_of es2" using assms by (simp add: ranges_over_def)
    then have "map_of [e1] (fst e1) = map_of [e2] (fst e1)" using Cons r1 e2 by simp
    then have "e1 = e2" by (cases e1; cases e2) (auto split: if_splits)
    then show ?thesis using Cons r1 e2 by simp
  qed
qed

lemma buildQuery_filters_appended:
  "fst (buildQuery \<lparr>Keys = keys, Metadata = es\<rparr> tbl)
     = spec_query keys [] tbl
       @ (if es = [] then [] else '' AND '' @ Join (map spec_equality_clause es) '' AND '')"
  by (simp add: buildQuery_spec_query spec_query_def)

text \<open>
  Claim C8, amended: for every key list, table name and metadata mapping, the query of a
  call of \<^verbatim>\<open>buildQuery\<close> is the query for the keys alone followed by the equality clauses
  in the order in which \<^verbatim>\<open>range\<close> walks the mapping in that call. Two calls with the same
  input append the same clauses, each as often, and can differ only in the order of the
  clauses; when the mapping has at most one entry the two query strings are identical.
\<close>

theorem buildQuery_same_clauses_in_range_order:
  assumes "ranges_over m es1" and "ranges_over m es2"
  shows "fst (buildQuery \<lparr>Keys = keys, Metadata = es1\<rparr> tbl)
           = spec_query keys [] tbl
             @ (if es1 = [] then []
                else '' AND '' @ Join (map spec_equality_clause es1) '' AND '')
       \<and> fst (buildQuery \<lparr>Keys = keys, Metadata = es2\<rparr> tbl)
           = spec_query keys [] tbl
             @ (if es2 = [] then []
                else '' AND '' @ Join (map spec_equality_clause es2) '' AND '')
       \<and> mset (map spec_equality_clause es1) = mset (map spec_equality_clause es2)
       \<and> (card (dom m) \<le> 1 \<longrightarrow>
            buildQuery \<lparr>Keys = keys, Metadata = es1\<rparr> tbl
              = buildQuery \<lparr>Keys = keys, Metadata = es2\<rparr> tbl)"
proof -
  have "mset (map spec_equality_clause es1) = mset (map spec_equality_clause es2)"
    using ranges_over_mset [OF assms] by (metis mset_map)
  moreover have "buildQuery \<lparr>Keys = keys, Metadata = es1\<rparr> tbl
      = buildQuery \<lparr>Keys = keys, Metadata = es2\<rparr> tbl" if "card (dom m) \<le> 1"
    using ranges_over_one [OF assms that] by simp
  ultimately show ?thesis
    using buildQuery_filters_appended [of keys es1 tbl] buildQuery_filters_appended [of keys es2 tbl]
    by blast
qed

text \<open>
  C8 at the two walks of the mapping with \<^verbatim>\<open>a = 1\<close> and \<^verbatim>\<open>b = 2\<close> (the same two clauses in
  two orders), and at the one filter \<^verbatim>\<open>env = prod\<close> (one query).
\<close>

theorem buildQuery_same_clauses_in_range_order_witness:
  "fst (buildQuery \<lparr>Keys = [], Metadata = [(''a'', ''1''), (''b'', ''2'')]\<rparr> ''cfg'')
     = ''SELECT * FROM cfg AND a='1' AND b='2'' @ [CHR 0x27]
   \<and> fst (buildQuery \<lparr>Keys = [], Metadata = [(''b'', ''2''), (''a'', ''1'')]\<rparr> ''cfg'')
     = ''SELECT * FROM cfg AND b='2' AND a='1'' @ [CHR 0x27]
   \<and> mset (map spec_equality_clause [(''a'', ''1''), (''b'', ''2'')])
     = mset (map spec_equality_clause [(''b'', ''2''), (''a'', ''1'')])
   \<and> card (dom [''env'' \<mapsto> ''prod'']) \<le> 1
   \<and> buildQuery \<lparr>Keys = [''a''], Metadata = [(''env'', ''prod'')]\<rparr> ''cfg''
     = (''SELECT * FROM cfg WHERE KEY IN ('a') AND env='prod'' @ [CHR 0x27], None)"
proof -
  have r1: "ranges_over [''a'' \<mapsto> ''1'', ''b'' \<mapsto> ''2''] [(''a'', ''1''), (''b'', ''2'')]"
    and r2: "ranges_over [''a'' \<mapsto> ''1'', ''b'' \<mapsto> ''2''] [(''b'', ''2''), (''a'', ''1'')]"
    by (auto simp: ranges_over_def fun_eq_iff)
  have r: "ranges_over [''env'' \<mapsto> ''prod''] [(''env'', ''prod'')]"
    by (simp add: ranges_over_def)
  have c: "card (dom [''env'' \<mapsto> ''prod'']) \<le> 1"
    by simp
  have two: "fst (buildQuery \<lparr>Keys = [], Metadata = [(''a'', ''1''), (''b'', ''2'')]\<rparr> ''cfg'')
     = ''SELECT * FROM cfg AND a='1' AND b='2'' @ [CHR 0x27]
   \<and> fst (buildQuery \<lparr>Keys = [], Metadata = [(''b'', ''2''), (''a'', ''1'')]\<rparr> ''cfg'')
     = ''SELECT * FROM cfg AND b='2' AND a='1'' @ [CHR 0x27]
   \<and> mset (map spec_equality_clause [(''a'', ''1''), (''b'', ''2'')])
     = mset (map spec_equality_clause [(''b'', ''2''), (''a'', ''1'')])"
    using buildQuery_same_clauses_in_range_order [OF r1 r2, of "[]" "''cfg''"]
    by (simp add: spec_query_def spec_equality_clause_def spec_quoted_def)
  have one: "buildQuery \<lparr>Keys = [''a''], Metadata = [(''env'', ''prod'')]\<rparr> ''cfg''
     = (''SELECT * FROM cfg WHERE KEY IN ('a') AND env='prod'' @ [CHR 0x27], None)"
    using buildQuery_same_clauses_in_range_order [OF r r, of "[''a'']" "''cfg''"] c
    by (simp add: prod_eq_iff buildQuery_no_error spec_query_def spec_equality_clause_def
        spec_quoted_def)
  show ?thesis
    using two one c by simp
qed

text \<open>A word that lacks the character \<open>c\<close> lies on one side of it.\<close>

lemma sublist_split:
  assumes "c \<notin> set w"
  shows "sublist w (xs @ c # ys) \<longleftrightarrow> sublist w xs \<or> sublist w ys"
proof
  assume "sublist w (xs @ c # ys)"
  then consider "sublist w xs" | "sublist w (c # ys)"
    | xs1 xs2 where "w = xs1 @ xs2" "suffix xs1 xs" "prefix xs2 (c # ys)"
    by (auto simp: sublist_append)
  then show "sublist w xs \<or> sublist w ys"
  proof cases
    case 1
    then show ?thesis by simp
  next
    case 2
    then have "prefix w (c # ys) \<or> sublist w ys" by (simp add: sublist_Cons_right)
    moreover have "w = []" if "prefix w (c # ys)"
      using that assms by (cases w) auto
    ultimately show ?thesis by auto
  next
    case 3
    have "xs2 = []" using 3(1,3) assms by (cases xs2) auto
    with 3 show ?thesis by auto
  qed
next
  assume "sublist w xs \<or> sublist w ys"
  then show "sublist w (xs @ c # ys)"
    by (auto simp: sublist_append sublist_Cons_right)
qed

lemma sublist_skip:
  assumes "c \<notin> set w" "w \<noteq> []"
  shows "sublist w (c # ys) \<longleftrightarrow> sublist w ys"
  using sublist_split [OF assms(1), of "[]" ys] assms(2) by simp

lemma sublist_snoc_skip:
  assumes "c \<notin> set w" "w \<noteq> []"
  shows "sublist w (xs @ [c]) \<longleftrightarrow> sublist w xs"
  using sublist_split [OF assms(1), of xs "[]"] assms(2) by simp

lemma WHERE_clause:
  assumes "\<not> sublist ''WHERE'' k" "\<not> sublist ''WHERE'' v"
  shows "\<not> sublist ''WHERE'' (spec_equality_clause (k, v))"
proof -
  have "spec_equality_clause (k, v) = k @ CHR ''='' # (CHR 0x27 # (v @ [CHR 0x27]))"
    by (simp add: spec_equality_clause_def spec_quoted_def)
  then show ?thesis
    using assms by (simp add: sublist_split sublist_skip sublist_snoc_skip)
qed

lemma WHERE_clauses:
  assumes "\<forall>(k, v) \<in> set es. \<not> sublist ''WHERE'' k \<and> \<not> sublist ''WHERE'' v"
  shows "\<not> sublist ''WHERE'' (Join (map spec_equality_clause es) '' AND '')"
  using assms
proof (induction es)
  case Nil
  then show ?case by simp
next
  case (Cons e es)
  obtain k v where e: "e = (k, v)" by (cases e)
  have c: "\<not> sublist ''WHERE'' (spec_equality_clause e)"
    using Cons.prems unfolding e by (intro WHERE_clause) auto
  have r: "\<not> sublist ''WHERE'' (Join (map spec_equality_clause es) '' AND '')"
    using Cons by simp
  have "Join (map spec_equality_clause (e # es)) '' AND '' =
      spec_equality_clause e @
        (if es = [] then []
         else CHR '' '' # (''AND '' @ Join (map spec_equality_clause es) '' AND ''))"
    by (simp add: Join_Cons)
  then show ?case
    using c r by (simp add: sublist_split sublist_skip)
qed

text \<open>
  Claim C10: for every request with no keys and at least one metadata filter the query
  is \<^verbatim>\<open>SELECT * FROM <table>\<close>, then \<^verbatim>\<open>AND\<close>, then the equality clauses joined by \<^verbatim>\<open>AND\<close>;
  the builder puts no \<^verbatim>\<open>WHERE\<close> into it: when neither the table name nor a filter's field
  or value contains the word, the query does not contain it.
\<close>

theorem buildQuery_filters_without_keys:
  assumes "Keys req = []" and "Metadata req \<noteq> []"
  shows "fst (buildQuery req tbl)
           = ''SELECT * FROM '' @ tbl @ '' AND ''
             @ Join (map spec_equality_clause (Metadata req)) '' AND ''
       \<and> (\<not> sublist ''WHERE'' tbl
            \<and> (\<forall>(k, v) \<in> set (Metadata req). \<not> sublist ''WHERE'' k \<and> \<not> sublist ''WHERE'' v)
          \<longrightarrow> \<not> sublist ''WHERE'' (fst (buildQuery req tbl)))"
proof -
  let ?J = "Join (map spec_equality_clause (Metadata req)) '' AND ''"
  have q: "fst (buildQuery req tbl) = ''SELECT * FROM '' @ tbl @ '' AND '' @ ?J"
    using assms by (simp add: buildQuery_spec_query spec_query_def)
  have shape: "''SELECT * FROM '' @ tbl @ '' AND '' @ ?J
      = ''SELECT * FROM'' @ CHR '' '' # (tbl @ CHR '' '' # (''AND '' @ ?J))"
    by simp
  have fixed: "\<not> sublist ''WHERE'' ''SELECT * FROM''"
    using set_mono_sublist [of "''WHERE''" "''SELECT * FROM''"] by auto
  have "\<not> sublist ''WHERE'' (fst (buildQuery req tbl))"
    if "\<not> sublist ''WHERE'' tbl"
      and "\<forall>(k, v) \<in> set (Metadata req). \<not> sublist ''WHERE'' k \<and> \<not> sublist ''WHERE'' v"
  proof -
    have "\<not> sublist ''WHERE'' ?J" using that(2) by (rule WHERE_clauses)
    then have "\<not> sublist ''WHERE'' (''AND '' @ ?J)"
      by (simp add: sublist_skip)
    then have "\<not> sublist ''WHERE'' (tbl @ CHR '' '' # (''AND '' @ ?J))"
      using that(1) by (subst sublist_split) simp_all
    then have "\<not> sublist ''WHERE''
        (''SELECT * FROM'' @ CHR '' '' # (tbl @ CHR '' '' # (''AND '' @ ?J)))"
      using fixed by (subst sublist_split) simp_all
    then show ?thesis
      unfolding q shape .
  qed
  with q show ?thesis by blast
qed

text \<open>C10 at the filter \<^verbatim>\<open>env = prod\<close> on the table \<^verbatim>\<open>cfg\<close>.\<close>

theorem buildQuery_filters_without_keys_witness:
  "fst (buildQuery \<lparr>Keys = [], Metadata = [(''env'', ''prod'')]\<rparr> ''cfg'')
     = ''SELECT * FROM cfg AND env='prod'' @ [CHR 0x27]
   \<and> \<not> sublist ''WHERE'' (fst (buildQuery \<lparr>Keys = [], Metadata = [(''env'', ''prod'')]\<rparr> ''cfg''))"
proof -
  have n: "\<not> sublist ''WHERE'' ''cfg''" "\<not> sublist ''WHERE'' ''env''"
    "\<not> sublist ''WHERE'' ''prod''"
    using set_mono_sublist [of "''WHERE''" "''cfg''"] set_mono_sublist [of "''WHERE''" "''env''"]
      set_mono_sublist [of "''WHERE''" "''prod''"] by auto
  show ?thesis
    using buildQuery_filters_without_keys
        [of "\<lparr>Keys = [], Metadata = [(''env'', ''prod'')]\<rparr>" "''cfg''"] n
    by (clarsimp simp: spec_equality_clause_def spec_quoted_def)
qed

subsection \<open>Get\<close>

lemma Get_after_buildQuery:
  "Get Query Scan Unmarshal p req =
     (case client p of
        None \<Rightarrow> Panics NilPointerDereference
      | Some pool \<Rightarrow>
          (case Query pool (fst (buildQuery req (configTable (metadata p)))) of
             Inl err \<Rightarrow>
               (if err = ErrNoRows then Returns (Some \<lparr>Items = None\<rparr>, None)
                else Returns (None, Some err))
           | Inr rows \<Rightarrow> rows_Next Scan Unmarshal rows \<lparr>Items = None\<rparr>))"
proof -
  obtain q where q: "buildQuery req (configTable (metadata p)) = (q, None)"
    using buildQuery_no_error [of req "configTable (metadata p)"]
    by (cases "buildQuery req (configTable (metadata p))") auto
  show ?thesis
    by (cases "client p") (simp_all add: Get_def q)
qed

text \<open>
  Claim C7: when the query of a \<^verbatim>\<open>Get\<close> call executes and matches no rows (or the driver
  reports \<^verbatim>\<open>sql.ErrNoRows\<close>), \<^verbatim>\<open>Get\<close> returns a response and a nil error, and the
  response has no item under any key.
\<close>

theorem Get_no_rows:
  assumes "client p = Some pool"
    and "Query pool (fst (buildQuery req (configTable (metadata p)))) = Inr []
       \<or> Query pool (fst (buildQuery req (configTable (metadata p)))) = Inl ErrNoRows"
  shows "\<exists>response. Get Query Scan Unmarshal p req = Returns (Some response, None)
           \<and> (\<forall>k. Items_at response k = None)"
  using assms by (auto simp: Get_after_buildQuery Items_at_def)

text \<open>C7 on the table \<^verbatim>\<open>cfg\<close> when the query for all rows finds none.\<close>

theorem Get_no_rows_witness:
  "client store_cfg = Some ()
   \<and> Query_answers ''SELECT * FROM cfg'' ([] :: (string \<times> string \<times> string \<times> string) list) ()
       (fst (buildQuery \<lparr>Keys = [], Metadata = []\<rparr> (configTable (metadata store_cfg)))) = Inr []
   \<and> (\<exists>response.
         Get (Query_answers ''SELECT * FROM cfg'' []) Scan_stores (decodes owner_x Map.empty) store_cfg
           \<lparr>Keys = [], Metadata = []\<rparr> = Returns (Some response, None)
         \<and> (\<forall>k. Items_at response k = None))"
proof -
  have c: "client store_cfg = Some ()"
    by (simp add: store_cfg_def)
  have q: "Query_answers ''SELECT * FROM cfg'' ([] :: (string \<times> string \<times> string \<times> string) list) ()
       (fst (buildQuery \<lparr>Keys = [], Metadata = []\<rparr> (configTable (metadata store_cfg)))) = Inr []"
    by (simp add: store_cfg_def buildQuery_def Query_answers_def decodes_def)
  from Get_no_rows [of store_cfg "()" "Query_answers ''SELECT * FROM cfg'' []"
      "\<lparr>Keys = [], Metadata = []\<rparr>" Scan_stores "decodes owner_x Map.empty"] q c
  show ?thesis by simp
qed

lemma rows_Next_nil_map:
  "rows \<noteq> [] \<Longrightarrow>
     rows_Next Scan Unmarshal rows \<lparr>Items = None\<rparr> = Panics NilMapAssignment
   \<or> (\<exists>err. rows_Next Scan Unmarshal rows \<lparr>Items = None\<rparr> = Returns (None, Some err))"
  by (cases rows) (auto split: sum.splits prod.splits)

text \<open>
  Claim C3 says that \<^verbatim>\<open>Get\<close> decodes each row into \<^verbatim>\<open>Items[key]\<close>. The code does not:
  the response is made with a nil map and the key is handed to \<^verbatim>\<open>Scan\<close> by value. For
  every driver and decoder, a \<^verbatim>\<open>Get\<close> whose query returns at least one row ends in the
  panic of an assignment to a nil map or returns an error; it never returns a response.
\<close>

theorem Get_rows_never_stored:
  assumes "client p = Some pool"
    and "Query pool (fst (buildQuery req (configTable (metadata p)))) = Inr rows"
    and "rows \<noteq> []"
  shows "Get Query Scan Unmarshal p req = Panics NilMapAssignment
       \<or> (\<exists>err. Get Query Scan Unmarshal p req = Returns (None, Some err))"
  using assms rows_Next_nil_map [OF assms(3), of Scan Unmarshal]
  by (auto simp: Get_after_buildQuery)

text \<open>
  C3 at one row with the metadata column \<^verbatim>\<open>{"owner":"x"}\<close>: a driver that fills the three
  pointers leads to the panic, and a driver that refuses the destination passed by value
  leads to its error.
\<close>

theorem Get_rows_never_stored_witness:
  "Get (Query_answers ''SELECT * FROM cfg'' [(''k'', ''v'', ''1'', owner_x)]) Scan_stores
      (decodes owner_x [''owner'' \<mapsto> ''x'']) store_cfg \<lparr>Keys = [], Metadata = []\<rparr>
     = Panics NilMapAssignment
   \<and> Get (Query_answers ''SELECT * FROM cfg'' [(''k'', ''v'', ''1'', owner_x)]) Scan_refuses
      (decodes owner_x [''owner'' \<mapsto> ''x'']) store_cfg \<lparr>Keys = [], Metadata = []\<rparr>
     = Returns (None, Some (Error ''can not scan into a destination that is not a pointer''))"
proof -
  let ?Q = "Query_answers ''SELECT * FROM cfg'' [(''k'', ''v'', ''1'', owner_x)]"
  let ?U = "decodes owner_x [''owner'' \<mapsto> ''x'']"
  let ?req = "\<lparr>Keys = [], Metadata = []\<rparr>"
  have c: "client store_cfg = Some ()"
    by (simp add: store_cfg_def)
  have q: "?Q () (fst (buildQuery ?req (configTable (metadata store_cfg))))
      = Inr [(''k'', ''v'', ''1'', owner_x)]"
    by (simp add: store_cfg_def buildQuery_def Query_answers_def decodes_def)
  have "Get ?Q Scan_stores ?U store_cfg ?req = Panics NilMapAssignment"
    using Get_rows_never_stored
      [of store_cfg "()" ?Q ?req "[(''k'', ''v'', ''1'', owner_x)]" Scan_stores ?U] c q
    by (simp add: Get_after_buildQuery Scan_stores_def decodes_def)
  moreover have "Get ?Q Scan_refuses ?U store_cfg ?req
      = Returns (None, Some (Error ''can not scan into a destination that is not a pointer''))"
    by (simp add: Get_after_buildQuery c q Scan_refuses_def)
  ultimately show ?thesis by simp
qed

subsection \<open>Init\<close>

text \<open>
  Claim C9: \<^verbatim>\<open>Init\<close> runs the table-existence query and discards the boolean. Once the
  store is not yet initialised, the options parse, and the pool connects and answers both
  pings, \<^verbatim>\<open>Init\<close> returns an error exactly when the query or its scan fails (that error),
  and returns nil whichever boolean the query gave, so also when the table does not
  exist.
\<close>

theorem Init_discards_exists:
  assumes "client p = None"
    and "parseMetadata ParseDuration Properties = (m, None)"
    and "Connect pgxpool_Connect pool_Ping (connectionString m) (maxIdleTime m) = Inr pool"
    and "Ping pool = None"
  shows "snd (Init ParseDuration pgxpool_Connect pool_Ping Ping QueryRow_Scan p Properties)
           = (case QueryRow_Scan pool QueryTableExists (configTable m) of
                Inl err \<Rightarrow> Some err
              | Inr exists' \<Rightarrow> None)"
  using assms by (simp add: Init_def split: sum.splits)

text \<open>C9 at a reachable database whose catalogue does not list the table \<^verbatim>\<open>cfg\<close>.\<close>

theorem Init_discards_exists_witness:
  "table_not_found () QueryTableExists ''cfg'' = Inr False
   \<and> snd (Init whole_seconds pool_connects ping_answers ping_answers table_not_found
        NewPostgresConfigurationStore
        [''connectionString'' \<mapsto> ''host=db'', ''table'' \<mapsto> ''cfg'', ''connMaxIdleTime'' \<mapsto> ''30s''])
     = None"
proof -
  let ?P = "[''connectionString'' \<mapsto> ''host=db'', ''table'' \<mapsto> ''cfg'',
             ''connMaxIdleTime'' \<mapsto> ''30s'']"
  let ?m = "\<lparr>maxIdleTime = 30000000000, connectionString = ''host=db'', configTable = ''cfg''\<rparr>"
  have c: "client (NewPostgresConfigurationStore :: unit ConfigurationStore) = None"
    by (simp add: NewPostgresConfigurationStore_def)
  have m: "parseMetadata whole_seconds ?P = (?m, None)"
    by (simp add: parseMetadata_def metadata_zero_def connectionStringKey_def
        configtablekey_def connMaxIdleTimeKey_def IsASCII_def maxIdentifierLength_def
        whole_seconds_30s)
  have k: "Connect pool_connects ping_answers (connectionString ?m) (maxIdleTime ?m) = Inr ()"
    by (simp add: Connect_def pool_connects_def ping_answers_def)
  have g: "ping_answers () = None"
    by (simp add: ping_answers_def)
  from Init_discards_exists
    [of NewPostgresConfigurationStore whole_seconds ?P ?m pool_connects ping_answers "()"
      ping_answers table_not_found] c m k g
  show ?thesis by (simp add: table_not_found_def)
qed

subsection \<open>Subscribe\<close>

lemma hexdigit_cases: "hexdigit n \<in> set ''0123456789abcdef''"
  unfolding hexdigit_def by (rule nth_mem) simp

lemma hexdigit_not_l: "hexdigit n \<noteq> CHR ''l''"
  using hexdigit_cases [of n] by auto

text \<open>An identifier starts with a hexadecimal digit, so it is never a channel name.\<close>

lemma uuid_String_hd: "\<exists>c cs. uuid_String u = c # cs \<and> c \<noteq> CHR ''l''"
proof (cases u)
  case Nil
  then show ?thesis by (simp add: uuid_String_def encodeHex_def)
next
  case (Cons b bs)
  then show ?thesis by (simp add: uuid_String_def encodeHex_def hexdigit_not_l)
qed

lemma uuid_String_not_listen: "uuid_String u \<noteq> ''listen '' @ tbl"
  using uuid_String_hd [of u] by auto

lemma Subscribe_unregistered:
  assumes "subscribeStopChanMap p (''listen '' @ configTable (metadata p)) = None"
  shows "Subscribe u (p, rt) =
     Returns ((uuid_String u, None),
       p\<lparr>subscribeStopChanMap := (subscribeStopChanMap p)(uuid_String u \<mapsto> chans rt)\<rparr>,
       rt\<lparr>chans := Suc (chans rt),
          goroutines := goroutines rt
            @ [(''listen '' @ configTable (metadata p), uuid_String u, chans rt)]\<rparr>)"
  using assms by (simp add: Subscribe_def Let_def)

text \<open>
  The registry only ever gets identifiers as keys: neither call puts an entry under the
  channel name.
\<close>

lemma Subscribe_no_channel_key:
  assumes "subscribeStopChanMap p (''listen '' @ configTable (metadata p)) = None"
    and "Subscribe u (p, rt) = Returns (r, p', rt')"
  shows "subscribeStopChanMap p' (''listen '' @ configTable (metadata p')) = None"
  using assms(2) assms(1) uuid_String_not_listen [of u "configTable (metadata p)"]
  unfolding Subscribe_unregistered [OF assms(1)] by auto

lemma Unsubscribe_no_channel_key:
  assumes "subscribeStopChanMap p (''listen '' @ configTable (metadata p)) = None"
    and "Unsubscribe ID' (p, rt) = Returns (r, p', rt')"
  shows "subscribeStopChanMap p' (''listen '' @ configTable (metadata p')) = None"
  using assms by (auto simp: Unsubscribe_def Let_def split: option.splits outcome.splits)

text \<open>
  Claim C1 says that a second \<^verbatim>\<open>Subscribe\<close> on the same table closes the stop signal of
  the first. The code looks the old signal up under the channel name and stores the new
  one under the identifier, so the lookup finds nothing: for every table and every two
  identifiers, from a registry with no entry under the channel name, both calls return,
  no channel is closed by them, the first stop channel stays open and both listeners have
  been started.
\<close>

theorem Subscribe_twice_first_stays_open:
  assumes "subscribeStopChanMap p (''listen '' @ configTable (metadata p)) = None"
    and "chans rt \<notin> closed rt"
  shows "\<exists>p' rt'. Subscribe_twice u1 u2 (p, rt)
           = Returns ((uuid_String u1, None), (uuid_String u2, None), p', rt')
         \<and> closed rt' = closed rt
         \<and> chans rt \<notin> closed rt'
         \<and> goroutines rt' = goroutines rt @
              [(''listen '' @ configTable (metadata p), uuid_String u1, chans rt),
               (''listen '' @ configTable (metadata p), uuid_String u2, Suc (chans rt))]"
proof -
  let ?p1 = "p\<lparr>subscribeStopChanMap := (subscribeStopChanMap p)(uuid_String u1 \<mapsto> chans rt)\<rparr>"
  let ?rt1 = "rt\<lparr>chans := Suc (chans rt),
          goroutines := goroutines rt
            @ [(''listen '' @ configTable (metadata p), uuid_String u1, chans rt)]\<rparr>"
  have s1: "Subscribe u1 (p, rt) = Returns ((uuid_String u1, None), ?p1, ?rt1)"
    using assms(1) by (rule Subscribe_unregistered)
  have "subscribeStopChanMap ?p1 (''listen '' @ configTable (metadata ?p1)) = None"
    using assms(1) uuid_String_not_listen [of u1 "configTable (metadata p)"] by auto
  from Subscribe_unregistered [OF this, of u2 ?rt1]
  show ?thesis
    using assms(2) by (simp add: Subscribe_twice_def s1)
qed

text \<open>C1 on the table \<^verbatim>\<open>cfg\<close> with the identifiers that end in 1 and in 2.\<close>

theorem Subscribe_twice_first_stays_open_witness:
  "\<exists>p' rt'.
     Subscribe_twice [0,0,0,0, 0,0, 0,0, 0,0, 0,0,0,0,0,1] [0,0,0,0, 0,0, 0,0, 0,0, 0,0,0,0,0,2]
       (store_cfg, fresh_runtime)
       = Returns ((''00000000-0000-0000-0000-000000000001'', None),
                  (''00000000-0000-0000-0000-000000000002'', None), p', rt')
     \<and> closed rt' = {}
     \<and> 0 \<notin> closed rt'
     \<and> goroutines rt' =
          [(''listen cfg'', ''00000000-0000-0000-0000-000000000001'', 0),
           (''listen cfg'', ''00000000-0000-0000-0000-000000000002'', 1)]"
proof -
  have u1: "uuid_String [0,0,0,0, 0,0, 0,0, 0,0, 0,0,0,0,0,1]
      = ''00000000-0000-0000-0000-000000000001''"
    by (simp add: uuid_String_def encodeHex_def hexdigit_def)
  have u2: "uuid_String [0,0,0,0, 0,0, 0,0, 0,0, 0,0,0,0,0,2]
      = ''00000000-0000-0000-0000-000000000002''"
    by (simp add: uuid_String_def encodeHex_def hexdigit_def)
  have r: "subscribeStopChanMap store_cfg (''listen '' @ configTable (metadata store_cfg)) = None"
    by (simp add: store_cfg_def)
  have f: "chans fresh_runtime \<notin> closed fresh_runtime"
    by (simp add: fresh_runtime_def)
  have t: "configTable (metadata store_cfg) = ''cfg''"
    by (simp add: store_cfg_def)
  from Subscribe_twice_first_stays_open [OF r f,
      of "[0,0,0,0, 0,0, 0,0, 0,0, 0,0,0,0,0,1]" "[0,0,0,0, 0,0, 0,0, 0,0, 0,0,0,0,0,2]"]
  show ?thesis
    unfolding u1 u2 t by (simp add: fresh_runtime_def)
qed

subsection \<open>Decoding a notification\<close>

text \<open>
  Claim C2 says that a payload whose \<^verbatim>\<open>data\<close> field is no mapping is dropped without a
  call of the handler. Against it: for the payload \<^verbatim>\<open>{"data":5}\<close> the handler is called,
  with an event that holds one item under the empty key.
\<close>

theorem handleSubscribedChange_data_number_handled:
  "json_examples payload_data_number = Inr [(''data'', GoFloat64 5)]
   \<and> row_of [(''data'', GoFloat64 5)] = GoFloat64 5
   \<and> handled (handleSubscribedChange json_examples ToLower_ASCII handler_returns_nil
        payload_data_number ''sub-1'')
     = [\<lparr>EventItems = [[] \<mapsto> \<lparr>Value = [], Version = [], ItemMetadata = Map.empty\<rparr>],
         ID = ''sub-1''\<rparr>]"
  by (simp add: handleSubscribedChange_def handleSubscribedChange_body_def json_examples_def
      row_of_def handler_returns_nil_def)

text \<open>
  Claim C2, amended: for every payload that \<^verbatim>\<open>json.Unmarshal\<close> accepts and whose \<^verbatim>\<open>data\<close>
  field is absent or is no mapping, the handler is called exactly once, with the
  subscription identifier and one item under the empty key whose value and version are
  empty and whose metadata is the empty mapping. A payload that \<^verbatim>\<open>json.Unmarshal\<close>
  rejects is logged and dropped: the handler is not called.
\<close>

theorem handleSubscribedChange_data_not_a_map:
  "(\<forall>payload. Unmarshal msg_Payload = Inr payload \<and> (\<forall>row. row_of payload \<noteq> GoMap row) \<longrightarrow>
      handled (handleSubscribedChange Unmarshal ToLower handler msg_Payload id')
        = [\<lparr>EventItems = [[] \<mapsto> \<lparr>Value = [], Version = [], ItemMetadata = Map.empty\<rparr>],
            ID = id'\<rparr>])
   \<and> (\<forall>err. Unmarshal msg_Payload = Inl err \<longrightarrow>
      handleSubscribedChange Unmarshal ToLower handler msg_Payload id'
        = [Logged (ErrorInUnMarshal err)]
      \<and> handled (handleSubscribedChange Unmarshal ToLower handler msg_Payload id') = [])"
proof (intro conjI allI impI)
  fix payload
  assume a: "Unmarshal msg_Payload = Inr payload \<and> (\<forall>row. row_of payload \<noteq> GoMap row)"
  have r: "(case row_of payload of
              GoMap row \<Rightarrow> range_MapKeys ToLower row ([], [], [], Map.empty)
            | _ \<Rightarrow> Inr ([], [], [], Map.empty)) = Inr ([], [], [], Map.empty)"
    using a by (cases "row_of payload") auto
  show "handled (handleSubscribedChange Unmarshal ToLower handler msg_Payload id')
        = [\<lparr>EventItems = [[] \<mapsto> \<lparr>Value = [], Version = [], ItemMetadata = Map.empty\<rparr>],
            ID = id'\<rparr>]"
    using a
    by (simp add: handleSubscribedChange_def handleSubscribedChange_body_def r
        Let_def split: outcome.splits option.splits)
next
  fix err
  assume e: "Unmarshal msg_Payload = Inl err"
  then show "handleSubscribedChange Unmarshal ToLower handler msg_Payload id'
        = [Logged (ErrorInUnMarshal err)]"
    by (simp add: handleSubscribedChange_def handleSubscribedChange_body_def)
  then show "handled (handleSubscribedChange Unmarshal ToLower handler msg_Payload id') = []"
    by simp
qed

text \<open>
  C2 at the payload \<^verbatim>\<open>{}\<close>, which has no \<^verbatim>\<open>data\<close> field, and at a text that is no JSON.
\<close>

theorem handleSubscribedChange_data_not_a_map_witness:
  "decodes ''{}'' [] ''{}'' = Inr ([] :: (string \<times> gov) list)
   \<and> row_of [] = GoNil
   \<and> handled (handleSubscribedChange (decodes ''{}'' []) ToLower_ASCII handler_returns_nil
        ''{}'' ''sub-1'')
     = [\<lparr>EventItems = [[] \<mapsto> \<lparr>Value = [], Version = [], ItemMetadata = Map.empty\<rparr>],
         ID = ''sub-1''\<rparr>]
   \<and> decodes ''{}'' ([] :: (string \<times> gov) list) ''data'' = Inl (Error ''invalid character'')
   \<and> handleSubscribedChange (decodes ''{}'' []) ToLower_ASCII handler_returns_nil
        ''data'' ''sub-1''
     = [Logged (ErrorInUnMarshal (Error ''invalid character''))]
   \<and> handled (handleSubscribedChange (decodes ''{}'' []) ToLower_ASCII handler_returns_nil
        ''data'' ''sub-1'') = []"
proof -
  have d: "decodes ''{}'' [] ''{}'' = Inr ([] :: (string \<times> gov) list)"
    by (simp add: decodes_def)
  have n: "\<forall>row. row_of [] \<noteq> GoMap row"
    by (simp add: row_of_def)
  have x: "decodes ''{}'' ([] :: (string \<times> gov) list) ''data'' = Inl (Error ''invalid character'')"
    by (simp add: decodes_def)
  have accepted: "handled (handleSubscribedChange (decodes ''{}'' []) ToLower_ASCII
        handler_returns_nil ''{}'' ''sub-1'')
     = [\<lparr>EventItems = [[] \<mapsto> \<lparr>Value = [], Version = [], ItemMetadata = Map.empty\<rparr>],
         ID = ''sub-1''\<rparr>]"
    using handleSubscribedChange_data_not_a_map
      [of "decodes ''{}'' []" "''{}''" ToLower_ASCII handler_returns_nil "''sub-1''"] d n
    by simp
  have rejected: "handleSubscribedChange (decodes ''{}'' []) ToLower_ASCII handler_returns_nil
        ''data'' ''sub-1''
     = [Logged (ErrorInUnMarshal (Error ''invalid character''))]
   \<and> handled (handleSubscribedChange (decodes ''{}'' []) ToLower_ASCII handler_returns_nil
        ''data'' ''sub-1'') = []"
    using handleSubscribedChange_data_not_a_map
      [of "decodes ''{}'' []" "''data''" ToLower_ASCII handler_returns_nil "''sub-1''"] x
    by simp
  show ?thesis
    using d x accepted rejected by (simp add: row_of_def)
qed

lemma handled_append: "handled (xs @ ys) = handled xs @ handled ys"
  by (induction xs rule: handled.induct) simp_all

lemma range_a_panics:
  "\<not> list_all (\<lambda>kv. is_string (snd kv)) a \<Longrightarrow> \<exists>pe. range_a a m = Inl pe"
proof (induction a arbitrary: m)
  case Nil
  then show ?case by simp
next
  case (Cons kv a)
  obtain k v where kv: "kv = (k, v)" by (cases kv)
  show ?case
  proof (cases "is_string v")
    case True
    then obtain s where "v = GoString s" by (cases v) auto
    then show ?thesis using Cons kv by simp
  next
    case False
    then show ?thesis unfolding kv by (cases v) auto
  qed
qed

lemma assert_string_panics: "\<not> is_string v \<Longrightarrow> \<exists>pe. assert_string v = Inl pe"
  by (cases v) auto

lemma range_MapKeys_panics:
  "list_ex (wrong_dynamic_type ToLower) row \<Longrightarrow> \<exists>pe. range_MapKeys ToLower row vars = Inl pe"
proof (induction row arbitrary: vars)
  case Nil
  then show ?case by simp
next
  case (Cons kv row)
  obtain strKey v where kv: "kv = (strKey, v)" by (cases kv)
  obtain key val version m where vars: "vars = (key, val, version, m)" by (cases vars)
  show ?case
  proof (cases "wrong_dynamic_type ToLower kv")
    case True
    show ?thesis
    proof (cases "ToLower strKey = ''metadata''")
      case md: True
      with True have n: "\<not> is_string_map v" by (simp add: wrong_dynamic_type_def kv)
      show ?thesis
      proof (cases v)
        case (GoMap a)
        with n obtain pe where "range_a a m = Inl pe" using range_a_panics by auto
        then show ?thesis unfolding kv vars using md GoMap by simp
      qed (use md in \<open>simp_all add: kv vars\<close>)
    next
      case False
      with True have "\<not> is_string v"
        and "ToLower strKey = ''key'' \<or> ToLower strKey = ''value'' \<or> ToLower strKey = ''version''"
        by (auto simp: wrong_dynamic_type_def kv split: if_splits)
      then show ?thesis
        unfolding kv vars using assert_string_panics [of v] by auto
    qed
  next
    case False
    then have "list_ex (wrong_dynamic_type ToLower) row" using Cons.prems by simp
    then have ih: "\<And>vars. \<exists>pe. range_MapKeys ToLower row vars = Inl pe"
      using Cons.IH by blast
    show ?thesis
      unfolding kv vars using ih
      by (auto split: sum.splits)
  qed
qed

text \<open>
  Claim C4: for every payload whose \<^verbatim>\<open>data\<close> mapping has a field of the wrong dynamic
  type (a \<^verbatim>\<open>metadata\<close> entry that is no mapping of strings to strings, or a \<^verbatim>\<open>key\<close>,
  \<^verbatim>\<open>value\<close> or \<^verbatim>\<open>version\<close> that is no string), in whatever order the fields are walked,
  the panic is recovered inside \<^verbatim>\<open>handleSubscribedChange\<close>: the call logs the panic,
  does not call the handler and returns, and the listener goes on with the next answer of
  \<^verbatim>\<open>WaitForNotification\<close> as if the notification had not come.
\<close>

theorem handleSubscribedChange_recovers:
  assumes "Unmarshal msg_Payload = Inr payload"
    and "row_of payload = GoMap row"
    and "list_ex (wrong_dynamic_type ToLower) row"
  shows "\<exists>pe. handleSubscribedChange Unmarshal ToLower handler msg_Payload id'
              = [Logged (PanicRecovered pe)]
          \<and> doSubscribe Unmarshal ToLower handler None None channel id' stop
               (Notification msg_Payload # waits)
              = (Logged (PanicRecovered pe)
                   # fst (doSubscribe Unmarshal ToLower handler None None channel id' stop waits),
                 snd (doSubscribe Unmarshal ToLower handler None None channel id' stop waits))"
proof -
  obtain pe where pe: "range_MapKeys ToLower row ([], [], [], Map.empty) = Inl pe"
    using range_MapKeys_panics [OF assms(3)] by blast
  have h: "handleSubscribedChange Unmarshal ToLower handler msg_Payload id'
      = [Logged (PanicRecovered pe)]"
    by (simp add: handleSubscribedChange_def handleSubscribedChange_body_def assms(1,2) pe)
  show ?thesis
    by (rule exI [of _ pe]) (simp add: h doSubscribe_def split: prod.splits)
qed

text \<open>
  C4 at a row whose metadata holds the number 5, followed by the well-formed row of the
  spec's example: the first is logged and dropped, the second reaches the handler, and
  the listener is still listening.
\<close>

theorem handleSubscribedChange_recovers_witness:
  "doSubscribe json_examples ToLower_ASCII handler_returns_nil None None ''listen cfg''
      ''sub-1'' 0 [Notification payload_metadata_number, Notification payload_mixed_case]
     = ([Logged (PanicRecovered (InterfaceConversion ''float64, not string'')),
         Handled \<lparr>EventItems =
                    [''k1'' \<mapsto> \<lparr>Value = ''v1'', Version = ''1'', ItemMetadata = [''m'' \<mapsto> ''x'']\<rparr>],
                  ID = ''sub-1''\<rparr>],
        Listening)"
proof -
  let ?row = "[(''key'', GoString ''k1''), (''metadata'', GoMap [(''m'', GoFloat64 5)])]"
  have u: "json_examples payload_metadata_number = Inr [(''data'', GoMap ?row)]"
    by (simp add: json_examples_def payload_metadata_number_def payload_data_number_def)
  have r: "row_of [(''data'', GoMap ?row)] = GoMap ?row"
    by (simp add: row_of_def)
  have w: "list_ex (wrong_dynamic_type ToLower_ASCII) ?row"
    by (simp add: wrong_dynamic_type_def ToLower_ASCII_def lower_char_def)
  have h: "handleSubscribedChange json_examples ToLower_ASCII handler_returns_nil
      payload_metadata_number ''sub-1''
      = [Logged (PanicRecovered (InterfaceConversion ''float64, not string''))]"
    by (simp add: handleSubscribedChange_def handleSubscribedChange_body_def u r
        ToLower_ASCII_def lower_char_def)
  have g: "doSubscribe json_examples ToLower_ASCII handler_returns_nil None None ''listen cfg''
      ''sub-1'' 0 [Notification payload_mixed_case]
     = ([Handled \<lparr>EventItems =
                    [''k1'' \<mapsto> \<lparr>Value = ''v1'', Version = ''1'', ItemMetadata = [''m'' \<mapsto> ''x'']\<rparr>],
                  ID = ''sub-1''\<rparr>],
        Listening)"
    by (simp add: doSubscribe_def handleSubscribedChange_def handleSubscribedChange_body_def
        json_examples_def payload_mixed_case_def payload_metadata_number_def
        payload_data_number_def row_of_def ToLower_ASCII_def lower_char_def
        handler_returns_nil_def)
  from handleSubscribedChange_recovers
    [of json_examples payload_metadata_number "[(''data'', GoMap ?row)]" ?row ToLower_ASCII
      handler_returns_nil "''sub-1''" "''listen cfg''" 0 "[Notification payload_mixed_case]",
      OF u r w]
  show ?thesis
    unfolding h g by simp
qed

end
